theory Spec2Isabelle
  imports Main "HOL-Library.AList" "HOL-Library.Monad_Syntax"
begin

section \<open>Numbers and their decimal text\<close>

text \<open>
  The program works on JavaScript numbers that hold integers. They are modelled as
  unbounded integers: coordinates and dimensions as \<open>nat\<close>, values as \<open>int\<close>. A double
  agrees with the integer it stands for as long as its magnitude stays below \<open>2^53\<close>, and
  everything below is about computations within that range. A character is a UTF-16 code
  unit below 256.
\<close>

definition is_digit :: "char \<Rightarrow> bool" where
  "is_digit c = (48 \<le> (of_char c :: nat) \<and> (of_char c :: nat) \<le> 57)"

definition digit_char :: "nat \<Rightarrow> char" where
  "digit_char d = char_of (48 + d)"

definition digit_value :: "char \<Rightarrow> nat" where
  "digit_value c = of_char c - 48"

text \<open>\<open>String(n)\<close>, as a template literal renders a non-negative integer.\<close>

fun show_nat :: "nat \<Rightarrow> string" where
  "show_nat n = (if n < 10 then [digit_char n] else show_nat (n div 10) @ [digit_char (n mod 10)])"

declare show_nat.simps [simp del]


text \<open>The value of a string of decimal digits (what \<open>\d+\<close> matches).\<close>

definition digits_value :: "string \<Rightarrow> nat" where
  "digits_value s = foldl (\<lambda>a c. 10 * a + digit_value c) 0 s"

text \<open>
  \<open>Number(s)\<close>, on the strings the program applies it to: the two parts of a key of the
  element mapping, which \<open>setElement\<close> wrote as decimal digits. On other strings
  JavaScript's result is \<open>NaN\<close> or lies outside the naturals; every statement below that
  goes through \<open>Number\<close> is about matrices whose keys are of that form (\<open>well_formed\<close>).
\<close>

definition Number :: "string \<Rightarrow> nat" where
  "Number s = digits_value s"

text \<open>\<open>parseInt(s)\<close> on what \<open>-?\d+\<close> matches.\<close>

definition parseInt :: "string \<Rightarrow> int" where
  "parseInt s = (case s of
       [] \<Rightarrow> int (digits_value s)
     | c # ds \<Rightarrow> if c = CHR ''-'' then - int (digits_value ds) else int (digits_value s))"

section \<open>Strings\<close>

text \<open>\<open>s.split(sep)\<close> for a separator of one character: never empty.\<close>

fun split :: "char \<Rightarrow> string \<Rightarrow> string list" where
  "split sep [] = [[]]"
| "split sep (c # cs) =
     (if c = sep then [] # split sep cs
      else (case split sep cs of [] \<Rightarrow> [[c]] | l # ls \<Rightarrow> (c # l) # ls))"

text \<open>White space and line terminators (\<open>\s\<close>, and what \<open>trim\<close> strips), below 256.\<close>

definition is_space :: "char \<Rightarrow> bool" where
  "is_space c = ((of_char c :: nat) \<in> {9, 10, 11, 12, 13, 32, 160})"

definition trim :: "string \<Rightarrow> string" where
  "trim s = rev (dropWhile is_space (rev (dropWhile is_space s)))"

section \<open>The matrix\<close>

record SparseMatrix =
  rows :: nat
  cols :: nat
  elements :: "(string \<times> int) list"

text \<open>
  \<open>elements\<close> is a JavaScript \<open>Map\<close>: keys are unique and iteration follows insertion
  order. \<open>Map.set\<close> replaces the value of a key in place or appends a new entry
  (\<open>AList.update\<close>), \<open>Map.get\<close> is \<open>map_of\<close>.
\<close>

definition new_SparseMatrix :: "nat \<Rightarrow> nat \<Rightarrow> SparseMatrix" where
  "new_SparseMatrix r c = \<lparr>rows = r, cols = c, elements = []\<rparr>"

text \<open>The key of a coordinate pair: the template literal \<open>${row},${col}\<close>.\<close>

definition key_of :: "nat \<Rightarrow> nat \<Rightarrow> string" where
  "key_of row col = show_nat row @ '','' @ show_nat col"

text \<open>\<open>x || 0\<close> where \<open>x\<close> is \<open>undefined\<close> or a number.\<close>

definition or_zero :: "int option \<Rightarrow> int" where
  "or_zero x = (case x of None \<Rightarrow> 0 | Some v \<Rightarrow> if v = 0 then 0 else v)"

definition getElement :: "nat \<Rightarrow> nat \<Rightarrow> SparseMatrix \<Rightarrow> int" where
  "getElement row col m = or_zero (map_of (elements m) (key_of row col))"

definition setElement :: "nat \<Rightarrow> nat \<Rightarrow> int \<Rightarrow> SparseMatrix \<Rightarrow> SparseMatrix" where
  "setElement row col v m =
     \<lparr>rows = (if row \<ge> rows m then row + 1 else rows m),
      cols = (if col \<ge> cols m then col + 1 else cols m),
      elements = AList.update (key_of row col) v (elements m)\<rparr>"

text \<open>\<open>const [row, col] = key.split(',').map(Number)\<close>.\<close>

definition key_coords :: "string \<Rightarrow> nat \<times> nat" where
  "key_coords key = (let parts = map Number (split CHR '','' key) in (parts ! 0, parts ! 1))"

section \<open>Errors\<close>

text \<open>
  Every failure of the program is a thrown \<open>Error\<close> object that carries a message, or an
  exception of the file system passed on as it is, which carries a code (\<open>EACCES\<close>,
  \<open>EISDIR\<close>, ...). The specification's error kinds are told apart by the message:
  \<open>NotFoundError\<close> is "File not found: ...", \<open>FormatError\<close> is one of the three messages
  of \<open>fromFile\<close>, \<open>DimensionMismatchError\<close> is one of the three messages of the
  arithmetic operations, \<open>IoError\<close> is a passed-on exception of the file system.
\<close>

datatype error = Error string | SystemError string

section \<open>Arithmetic\<close>

text \<open>
  The three operations build a fresh result and fill it through \<open>setElement\<close>. Each
  \<open>for (const [key, value] of m.elements)\<close> is a fold over the entries of an operand in
  insertion order; the result is a different object, so the entries do not change
  while the loop runs. Section "Objects in a store" has the operations on objects, with
  live iteration, and lemmas \<open>add_at_add\<close>, \<open>subtract_at_subtract\<close> and
  \<open>multiply_at_multiply\<close> show that they return what the operations below return.
\<close>

text \<open>The messages of the three dimension checks.\<close>

definition add_mismatch :: error where
  "add_mismatch = Error ''Matrices must have the same dimensions for addition.''"

definition subtract_mismatch :: error where
  "subtract_mismatch = Error ''Matrices must have the same dimensions for subtraction.''"

definition multiply_mismatch :: error where
  "multiply_mismatch =
     Error ''Number of columns of first matrix must equal number of rows of second matrix.''"

text \<open>The body of the loop that copies \<open>this\<close> into the result.\<close>

definition copy_entry :: "string \<times> int \<Rightarrow> SparseMatrix \<Rightarrow> SparseMatrix" where
  "copy_entry entry result =
     (case entry of (key, v) \<Rightarrow>
        case key_coords key of (row, col) \<Rightarrow> setElement row col v result)"

text \<open>The bodies of the loops over \<open>other.elements\<close>.\<close>

definition add_entry :: "string \<times> int \<Rightarrow> SparseMatrix \<Rightarrow> SparseMatrix" where
  "add_entry entry result =
     (case entry of (key, v) \<Rightarrow>
        case key_coords key of (row, col) \<Rightarrow>
          let currentValue = getElement row col result
          in setElement row col (currentValue + v) result)"

definition subtract_entry :: "string \<times> int \<Rightarrow> SparseMatrix \<Rightarrow> SparseMatrix" where
  "subtract_entry entry result =
     (case entry of (key, v) \<Rightarrow>
        case key_coords key of (row, col) \<Rightarrow>
          let currentValue = getElement row col result
          in setElement row col (currentValue - v) result)"

definition add :: "SparseMatrix \<Rightarrow> SparseMatrix \<Rightarrow> error + SparseMatrix" where
  "add this other =
     (if rows this \<noteq> rows other \<or> cols this \<noteq> cols other
      then Inl add_mismatch
      else
        let result = new_SparseMatrix (rows this) (cols this);
            result = fold copy_entry (elements this) result;
            result = fold add_entry (elements other) result
        in Inr result)"

definition subtract :: "SparseMatrix \<Rightarrow> SparseMatrix \<Rightarrow> error + SparseMatrix" where
  "subtract this other =
     (if rows this \<noteq> rows other \<or> cols this \<noteq> cols other
      then Inl subtract_mismatch
      else
        let result = new_SparseMatrix (rows this) (cols this);
            result = fold copy_entry (elements this) result;
            result = fold subtract_entry (elements other) result
        in Inr result)"

text \<open>The body of \<open>for (let k = 0; k < other.cols; k++)\<close>.\<close>

definition multiply_step ::
  "SparseMatrix \<Rightarrow> nat \<Rightarrow> nat \<Rightarrow> int \<Rightarrow> nat \<Rightarrow> SparseMatrix \<Rightarrow> SparseMatrix" where
  "multiply_step other row col value1 k result =
     (let otherValue = getElement col k other
      in if otherValue \<noteq> 0
         then let currentValue = getElement row k result
              in setElement row k (currentValue + value1 * otherValue) result
         else result)"

text \<open>The body of the loop over \<open>this.elements\<close>.\<close>

definition multiply_entry :: "SparseMatrix \<Rightarrow> string \<times> int \<Rightarrow> SparseMatrix \<Rightarrow> SparseMatrix" where
  "multiply_entry other entry result =
     (case entry of (key1, value1) \<Rightarrow>
        case key_coords key1 of (row, col) \<Rightarrow>
          fold (multiply_step other row col value1) [0..<cols other] result)"

definition multiply :: "SparseMatrix \<Rightarrow> SparseMatrix \<Rightarrow> error + SparseMatrix" where
  "multiply this other =
     (if cols this \<noteq> rows other
      then Inl multiply_mismatch
      else
        let result = new_SparseMatrix (rows this) (cols other);
            result = fold (multiply_entry other) (elements this) result
        in Inr result)"

section \<open>The invariant of the data model\<close>

text \<open>
  Keys are unique, every key is the key of a coordinate pair, and the declared
  dimensions contain every stored coordinate.
\<close>

definition entries_within :: "nat \<Rightarrow> nat \<Rightarrow> (string \<times> int) list \<Rightarrow> bool" where
  "entries_within R C es =
     list_all (\<lambda>(key, v). case key_coords key of (r, c) \<Rightarrow>
                 key = key_of r c \<and> r < R \<and> c < C) es"


section \<open>Reading a matrix from a file\<close>

text \<open>
  \<open>fs.readFileSync(filePath, 'utf8')\<close> returns the content of the file or throws an
  exception that carries a code; \<open>ENOENT\<close> is the code of a file that does not exist.
\<close>

datatype read_result = Content string | Fails string

type_synonym filesystem = "string \<Rightarrow> read_result"

definition no_files :: filesystem where
  "no_files = (\<lambda>path. Fails ''ENOENT'')"

text \<open>
  The three regular expressions have no anchors: \<open>s.match(re)\<close> finds the leftmost
  position of \<open>s\<close> where the expression matches, and returns the capture groups of
  that match. \<open>search at s\<close> tries \<open>at\<close> on every suffix of \<open>s\<close> from the left. Within one
  attempt every quantifier is followed by a character outside its class (\<open>\d+\<close> by a
  comma, a parenthesis or the end; \<open>\s*\<close> by a digit or a minus; \<open>-?\<close> by a digit), so
  the greedy choice is the only one that can succeed and no backtracking is needed.
\<close>

fun search :: "(string \<Rightarrow> 'a option) \<Rightarrow> string \<Rightarrow> 'a option" where
  "search at [] = at []"
| "search at (c # cs) = (case at (c # cs) of Some g \<Rightarrow> Some g | None \<Rightarrow> search at cs)"

text \<open>A literal character, a literal string, \<open>\d+\<close>, \<open>\s*\<close> and \<open>-?\<close> at the start of \<open>s\<close>.\<close>

definition lit :: "char \<Rightarrow> string \<Rightarrow> string option" where
  "lit c s = (case s of [] \<Rightarrow> None | x # xs \<Rightarrow> if x = c then Some xs else None)"

definition lits :: "string \<Rightarrow> string \<Rightarrow> string option" where
  "lits p s = (if take (length p) s = p then Some (drop (length p) s) else None)"

definition digits1 :: "string \<Rightarrow> (string \<times> string) option" where
  "digits1 s = (let ds = takeWhile is_digit s
                in if ds = [] then None else Some (ds, dropWhile is_digit s))"

definition spaces :: "string \<Rightarrow> string" where
  "spaces s = dropWhile is_space s"

definition opt_minus :: "string \<Rightarrow> string \<times> string" where
  "opt_minus s = (case s of [] \<Rightarrow> ([], s)
                  | x # xs \<Rightarrow> if x = CHR ''-'' then ([x], xs) else ([], s))"

text \<open>\<open>/rows=(\d+)/\<close> and \<open>/cols=(\d+)/\<close> at the start of \<open>s\<close>: the capture group.\<close>

definition header_at :: "string \<Rightarrow> string \<Rightarrow> string option" where
  "header_at name s = do {
     s1 \<leftarrow> lits name s;
     (ds, s2) \<leftarrow> digits1 s1;
     Some ds
   }"

text \<open>\<open>/\((\d+),\s*(\d+),\s*(-?\d+)\)/\<close> at the start of \<open>s\<close>: the three capture groups.\<close>

definition element_at :: "string \<Rightarrow> (string \<times> string \<times> string) option" where
  "element_at s = do {
     s1 \<leftarrow> lit CHR ''('' s;
     (g1, s2) \<leftarrow> digits1 s1;
     s3 \<leftarrow> lit CHR '','' s2;
     (g2, s4) \<leftarrow> digits1 (spaces s3);
     s5 \<leftarrow> lit CHR '','' s4;
     (sign, s6) \<leftarrow> Some (opt_minus (spaces s5));
     (g3, s7) \<leftarrow> digits1 s6;
     s8 \<leftarrow> lit CHR '')'' s7;
     Some (g1, g2, sign @ g3)
   }"

text \<open>The three messages of \<open>fromFile\<close> for a malformed file, and the one for a missing file.\<close>

definition too_few_lines :: "string \<Rightarrow> error" where
  "too_few_lines filePath =
     Error (''File '' @ filePath @ '' does not contain enough lines for matrix dimensions'')"

definition invalid_dimensions :: "string \<Rightarrow> error" where
  "invalid_dimensions filePath =
     Error (''Invalid dimension format in file '' @ filePath @ ''. Expected '' @
            [CHR 0x27] @ ''rows=X'' @ [CHR 0x27] @ '' and '' @ [CHR 0x27] @ ''cols=Y'' @ [CHR 0x27])"

definition invalid_line :: "nat \<Rightarrow> string \<Rightarrow> string \<Rightarrow> error" where
  "invalid_line n filePath line =
     Error (''Invalid format at line '' @ show_nat n @ '' in file '' @ filePath @ '': '' @ line)"

definition file_not_found :: "string \<Rightarrow> error" where
  "file_not_found filePath = Error (''File not found: '' @ filePath)"

text \<open>
  The loop \<open>for (let i = 2; i < lines.length; i++)\<close>, on the lines from index \<open>i\<close> on.
\<close>

fun parse_elements :: "string \<Rightarrow> nat \<Rightarrow> string list \<Rightarrow> SparseMatrix \<Rightarrow> error + SparseMatrix" where
  "parse_elements filePath i [] matrix = Inr matrix"
| "parse_elements filePath i (line # rest) matrix =
     (if line = [] then parse_elements filePath (i + 1) rest matrix
      else (case search element_at line of
              None \<Rightarrow> Inl (invalid_line (i + 1) filePath line)
            | Some (g1, g2, g3) \<Rightarrow>
                let row = nat (parseInt g1); col = nat (parseInt g2); v = parseInt g3
                in parse_elements filePath (i + 1) rest (setElement row col v matrix)))"

text \<open>
  \<open>fromFile\<close>. The \<open>catch\<close> turns \<open>ENOENT\<close> into "File not found" and throws every other
  error again, the three format errors among them (they carry no code).
\<close>

definition fromFile :: "filesystem \<Rightarrow> string \<Rightarrow> error + SparseMatrix" where
  "fromFile fs filePath =
     (case fs filePath of
        Fails code \<Rightarrow>
          if code = ''ENOENT'' then Inl (file_not_found filePath) else Inl (SystemError code)
      | Content content \<Rightarrow>
          let lines = map trim (split (CHR 0x0A) content) in
          if length lines < 2 then Inl (too_few_lines filePath)
          else
            let rowMatch = search (header_at ''rows='') (lines ! 0);
                colMatch = search (header_at ''cols='') (lines ! 1)
            in (case (rowMatch, colMatch) of
                  (Some rowGroup, Some colGroup) \<Rightarrow>
                    let totalRows = nat (parseInt rowGroup);
                        totalCols = nat (parseInt colGroup);
                        matrix = new_SparseMatrix totalRows totalCols
                    in parse_elements filePath 2 (drop 2 lines) matrix
                | _ \<Rightarrow> Inl (invalid_dimensions filePath)))"

section \<open>Writing a matrix as text\<close>





section \<open>Objects in a store\<close>

text \<open>
  A \<open>SparseMatrix\<close> is an object: two variables can hold the same one, and \<open>setElement\<close>
  changes it in place. The store is the list of the objects allocated so far, a
  reference is an index into it. \<open>new SparseMatrix\<close> appends an object; a method that
  changes \<open>this\<close> changes the object at the reference.
\<close>

type_synonym ref = nat

type_synonym store = "SparseMatrix list"

definition allocate :: "nat \<Rightarrow> nat \<Rightarrow> store \<Rightarrow> ref \<times> store" where
  "allocate r c h = (length h, h @ [new_SparseMatrix r c])"

definition modify :: "ref \<Rightarrow> (SparseMatrix \<Rightarrow> SparseMatrix) \<Rightarrow> store \<Rightarrow> store" where
  "modify p f h = h[p := f (h ! p)]"

text \<open>
  \<open>for (const [key, value] of p.elements) body\<close>. The iterator of a \<open>Map\<close> is live: each
  step reads the entry at the next position of the map as the store holds it then, so
  entries that the body appends to the same map are visited too. \<open>None\<close> is a loop that
  does not end.
\<close>

partial_function (option)
  for_entries :: "ref \<Rightarrow> (string \<times> int \<Rightarrow> store \<Rightarrow> store) \<Rightarrow> nat \<Rightarrow> store \<Rightarrow> store option" where
  "for_entries p body i h =
     (if i < length (elements (h ! p))
      then for_entries p body (i + 1) (body (elements (h ! p) ! i) h)
      else Some h)"

declare for_entries.simps [code]

text \<open>
  \<open>for (let k = 0; k < other.cols; k++)\<close> of \<open>multiply\<close>, from \<open>k\<close> on: the bound and the
  elements of \<open>other\<close> are read from the store at every step.
\<close>

function multiply_inner_at ::
  "ref \<Rightarrow> ref \<Rightarrow> nat \<Rightarrow> nat \<Rightarrow> int \<Rightarrow> nat \<Rightarrow> store \<Rightarrow> store" where
  "multiply_inner_at other result row col value1 k h =
     (if k < cols (h ! other)
      then multiply_inner_at other result row col value1 (k + 1)
             (modify result (multiply_step (h ! other) row col value1 k) h)
      else h)"
  by pat_completeness auto
termination
proof (relation "measure (\<lambda>(other, result, row, col, value1, k, h). cols (h ! other) - k)")
  show "wf (measure (\<lambda>(other, result, row, col, value1, k, h). cols (h ! other) - k))"
    by simp
next
  fix other result row col :: nat and value1 :: int and k :: nat and h :: store
  assume k: "k < cols (h ! other)"
  have "cols (modify result (multiply_step (h ! other) row col value1 k) h ! other)
      = cols (h ! other)"
  proof (cases "other = result \<and> result < length h")
    case True
    then show ?thesis
      using k by (simp add: modify_def multiply_step_def Let_def setElement_def)
  next
    case False
    then show ?thesis
      by (cases "other = result") (simp_all add: modify_def list_update_beyond)
  qed
  with k show "((other, result, row, col, value1, k + 1,
                 modify result (multiply_step (h ! other) row col value1 k) h),
                (other, result, row, col, value1, k, h))
      \<in> measure (\<lambda>(other, result, row, col, value1, k, h). cols (h ! other) - k)"
    by simp
qed

declare multiply_inner_at.simps [simp del]

definition add_at :: "ref \<Rightarrow> ref \<Rightarrow> store \<Rightarrow> ((error + ref) \<times> store) option" where
  "add_at this other h =
     (if rows (h ! this) \<noteq> rows (h ! other) \<or> cols (h ! this) \<noteq> cols (h ! other)
      then Some (Inl add_mismatch, h)
      else (case allocate (rows (h ! this)) (cols (h ! this)) h of (result, h1) \<Rightarrow>
        (case for_entries this (\<lambda>entry. modify result (copy_entry entry)) 0 h1 of
           None \<Rightarrow> None
         | Some h2 \<Rightarrow>
        (case for_entries other (\<lambda>entry. modify result (add_entry entry)) 0 h2 of
           None \<Rightarrow> None
         | Some h3 \<Rightarrow> Some (Inr result, h3)))))"

definition subtract_at :: "ref \<Rightarrow> ref \<Rightarrow> store \<Rightarrow> ((error + ref) \<times> store) option" where
  "subtract_at this other h =
     (if rows (h ! this) \<noteq> rows (h ! other) \<or> cols (h ! this) \<noteq> cols (h ! other)
      then Some (Inl subtract_mismatch, h)
      else (case allocate (rows (h ! this)) (cols (h ! this)) h of (result, h1) \<Rightarrow>
        (case for_entries this (\<lambda>entry. modify result (copy_entry entry)) 0 h1 of
           None \<Rightarrow> None
         | Some h2 \<Rightarrow>
        (case for_entries other (\<lambda>entry. modify result (subtract_entry entry)) 0 h2 of
           None \<Rightarrow> None
         | Some h3 \<Rightarrow> Some (Inr result, h3)))))"

definition multiply_entry_at :: "ref \<Rightarrow> ref \<Rightarrow> string \<times> int \<Rightarrow> store \<Rightarrow> store" where
  "multiply_entry_at other result entry h =
     (case entry of (key1, value1) \<Rightarrow>
        case key_coords key1 of (row, col) \<Rightarrow>
          multiply_inner_at other result row col value1 0 h)"

definition multiply_at :: "ref \<Rightarrow> ref \<Rightarrow> store \<Rightarrow> ((error + ref) \<times> store) option" where
  "multiply_at this other h =
     (if cols (h ! this) \<noteq> rows (h ! other)
      then Some (Inl multiply_mismatch, h)
      else (case allocate (rows (h ! this)) (cols (h ! other)) h of (result, h1) \<Rightarrow>
        (case for_entries this (multiply_entry_at other result) 0 h1 of
           None \<Rightarrow> None
         | Some h2 \<Rightarrow> Some (Inr result, h2))))"

section \<open>The header patterns as the specification words them\<close>

text \<open>
  The specification asks that a trimmed header line "exactly" matches \<open>rows=\d+\<close> (or
  \<open>cols=\d+\<close>): the whole line is the name followed by one or more digits. This is the
  specification's reading, not the program's (\<open>header_at\<close> under \<open>search\<close>).
\<close>

definition spec_header_exact :: "string \<Rightarrow> string \<Rightarrow> bool" where
  "spec_header_exact name s =
     (take (length name) s = name \<and> drop (length name) s \<noteq> [] \<and>
      list_all is_digit (drop (length name) s))"

section \<open>The matrices a program can build\<close>


section \<open>Decimal text is read back\<close>

lemma is_digit_digit_char: "d < 10 \<Longrightarrow> is_digit (digit_char d)"
  by (simp add: is_digit_def digit_char_def)

lemma digit_value_digit_char: "d < 10 \<Longrightarrow> digit_value (digit_char d) = d"
  by (simp add: digit_value_def digit_char_def)

lemma show_nat_digits: "list_all is_digit (show_nat n)"
proof (induction n rule: show_nat.induct)
  case (1 n)
  show ?case
  proof (cases "n < 10")
    case True
    then show ?thesis by (simp add: show_nat.simps [of n] is_digit_digit_char)
  next
    case False
    with 1 show ?thesis by (simp add: show_nat.simps [of n] is_digit_digit_char)
  qed
qed


lemma digits_value_snoc: "digits_value (s @ [c]) = 10 * digits_value s + digit_value c"
  by (simp add: digits_value_def)

lemma digits_value_show_nat: "digits_value (show_nat n) = n"
proof (induction n rule: show_nat.induct)
  case (1 n)
  show ?case
  proof (cases "n < 10")
    case True
    then show ?thesis
      by (simp add: show_nat.simps [of n] digits_value_def digit_value_digit_char)
  next
    case False
    with 1 show ?thesis
      by (simp add: show_nat.simps [of n] digits_value_snoc digit_value_digit_char)
  qed
qed

section \<open>Keys\<close>

lemma split_no_sep: "sep \<notin> set s \<Longrightarrow> split sep s = [s]"
  by (induction s) auto

lemma split_append_sep: "sep \<notin> set a \<Longrightarrow> split sep (a @ sep # b) = a # split sep b"
  by (induction a) auto

lemma comma_not_digit: "\<not> is_digit CHR '',''"
  by (simp add: is_digit_def)

lemma show_nat_no_comma: "CHR '','' \<notin> set (show_nat n)"
  using show_nat_digits [of n] comma_not_digit by (auto simp: list_all_iff)

lemma split_key_of: "split CHR '','' (key_of r c) = [show_nat r, show_nat c]"
  by (simp add: key_of_def split_append_sep split_no_sep show_nat_no_comma)

lemma key_coords_key_of: "key_coords (key_of r c) = (r, c)"
  by (simp add: key_coords_def split_key_of Number_def digits_value_show_nat)

lemma key_of_inject: "key_of r c = key_of r' c' \<longleftrightarrow> r = r' \<and> c = c'"
proof
  assume "key_of r c = key_of r' c'"
  then have "key_coords (key_of r c) = key_coords (key_of r' c')" by simp
  then show "r = r' \<and> c = c'" by (simp add: key_coords_key_of)
qed simp

section \<open>Reading and writing one element\<close>

lemma or_zero_Some: "or_zero (Some v) = v"
  by (simp add: or_zero_def)


lemma getElement_setElement:
  "getElement r' c' (setElement r c v m) = (if r' = r \<and> c' = c then v else getElement r' c' m)"
  by (simp add: getElement_def setElement_def update_conv' or_zero_Some key_of_inject)



lemma elements_setElement:
  "elements (setElement r c v m) = AList.update (key_of r c) v (elements m)"
  by (simp add: setElement_def)


section \<open>The invariant and the loops of the arithmetic\<close>





lemma entries_within_append:
  "entries_within R C (xs @ ys) \<longleftrightarrow> entries_within R C xs \<and> entries_within R C ys"
  by (simp add: entries_within_def)











lemma map_of_distinct_head:
  "distinct (map fst ((k, v) # es)) \<Longrightarrow> map_of es k = None"
  by (simp add: map_of_eq_None_iff)















section \<open>Parsing\<close>

lemma parse_elements_result:
  "parse_elements p i ls m = Inl e \<Longrightarrow> \<exists>n l. e = invalid_line n p l"
proof (induction ls arbitrary: i m)
  case Nil
  then show ?case by simp
next
  case (Cons l ls)
  then show ?case
    by (auto simp: Let_def split: if_splits option.splits prod.splits)
qed


lemma fromFile_Fails:
  "fs p = Fails code \<Longrightarrow>
   fromFile fs p = (if code = ''ENOENT'' then Inl (file_not_found p) else Inl (SystemError code))"
  by (simp add: fromFile_def)

lemma fromFile_Content:
  assumes "fs p = Content content" and "map trim (split (CHR 0x0A) content) = lines"
  shows "fromFile fs p =
          (if length lines < 2 then Inl (too_few_lines p)
           else (case search (header_at ''rows='') (lines ! 0) of
                   None \<Rightarrow> Inl (invalid_dimensions p)
                 | Some rg \<Rightarrow>
                    (case search (header_at ''cols='') (lines ! 1) of
                       None \<Rightarrow> Inl (invalid_dimensions p)
                     | Some cg \<Rightarrow>
                         parse_elements p 2 (drop 2 lines)
                           (new_SparseMatrix (nat (parseInt rg)) (nat (parseInt cg))))))"
  unfolding fromFile_def Let_def assms(1) read_result.case assms(2)
  by (simp split: option.splits)



lemma messages_differ:
  "invalid_line n p l \<noteq> invalid_dimensions p"
  "invalid_line n p l \<noteq> file_not_found q"
  "invalid_dimensions p \<noteq> file_not_found q"
  "invalid_line n p l \<noteq> too_few_lines q"
  "invalid_dimensions p \<noteq> too_few_lines q"
  by (simp_all add: invalid_line_def invalid_dimensions_def file_not_found_def too_few_lines_def)

lemma too_few_lines_not_found: "too_few_lines p \<noteq> file_not_found p"
proof
  assume "too_few_lines p = file_not_found p"
  then have "length (p @ '' does not contain enough lines for matrix dimensions'')
      = length (''not found: '' @ p)"
    by (simp add: too_few_lines_def file_not_found_def)
  then show False by simp
qed

section \<open>The regular expressions\<close>

lemma search_None_iff: "search at s = None \<longleftrightarrow> (\<forall>pre t. s = pre @ t \<longrightarrow> at t = None)"
proof (induction s)
  case Nil
  then show ?case by simp
next
  case (Cons c cs)
  show ?case
  proof
    assume a: "search at (c # cs) = None"
    then have here: "at (c # cs) = None" and later: "search at cs = None"
      by (simp_all split: option.splits)
    show "\<forall>pre t. c # cs = pre @ t \<longrightarrow> at t = None"
    proof (intro allI impI)
      fix pre t assume eq: "c # cs = pre @ t"
      show "at t = None"
      proof (cases pre)
        case Nil
        with eq here show ?thesis by simp
      next
        case (Cons x pre')
        with eq have "cs = pre' @ t" by simp
        with later Cons.IH show ?thesis by blast
      qed
    qed
  next
    assume a: "\<forall>pre t. c # cs = pre @ t \<longrightarrow> at t = None"
    then have "at (c # cs) = None" by (metis append_Nil)
    moreover have "\<forall>pre t. cs = pre @ t \<longrightarrow> at t = None"
      using a by (metis append_Cons)
    ultimately show "search at (c # cs) = None" using Cons.IH by simp
  qed
qed

lemma lits_Some_iff: "lits name s = Some t \<longleftrightarrow> s = name @ t"
  by (auto simp: lits_def) (metis append_take_drop_id)

lemma digits1_None_iff: "digits1 s = None \<longleftrightarrow> (\<forall>d post. s = d # post \<longrightarrow> \<not> is_digit d)"
  by (cases s) (auto simp: digits1_def Let_def)

lemma header_at_None_iff:
  "header_at name s = None \<longleftrightarrow> \<not> (\<exists>d post. s = name @ d # post \<and> is_digit d)"
proof (cases "lits name s")
  case None
  then have "\<And>t. s \<noteq> name @ t" using lits_Some_iff [of name s] by auto
  with None show ?thesis by (auto simp: header_at_def)
next
  case (Some t)
  then have s: "s = name @ t" by (simp add: lits_Some_iff)
  have "header_at name s = None \<longleftrightarrow> digits1 t = None"
    using Some by (cases "digits1 t") (auto simp: header_at_def)
  then show ?thesis by (auto simp: s digits1_None_iff)
qed

lemma search_header_None_iff:
  "search (header_at name) s = None \<longleftrightarrow>
     \<not> (\<exists>pre d post. s = pre @ name @ d # post \<and> is_digit d)"
  unfolding search_None_iff header_at_None_iff by blast

lemma fromFile_Content_error:
  assumes "fs p = Content content" and "fromFile fs p = Inl e"
  shows "e = too_few_lines p \<or> e = invalid_dimensions p \<or> (\<exists>n l. e = invalid_line n p l)"
proof -
  let ?ls = "map trim (split (CHR 0x0A) content)"
  note eq = fromFile_Content [of fs p, OF assms(1) refl]
  show ?thesis
  proof (cases "length ?ls < 2")
    case True
    with eq assms(2) show ?thesis by simp
  next
    case long: False
    show ?thesis
    proof (cases "search (header_at ''rows='') (?ls ! 0)")
      case None
      with eq long assms(2) show ?thesis by simp
    next
      case rg: (Some rg)
      show ?thesis
      proof (cases "search (header_at ''cols='') (?ls ! 1)")
        case None
        with eq long rg assms(2) show ?thesis by simp
      next
        case (Some cg)
        with eq long rg assms(2) have "parse_elements p 2 (drop 2 ?ls)
            (new_SparseMatrix (nat (parseInt rg)) (nat (parseInt cg))) = Inl e"
          by simp
        from parse_elements_result [OF this] show ?thesis by blast
      qed
    qed
  qed
qed

lemma spec_header_exact_search:
  assumes "spec_header_exact name s"
  shows "search (header_at name) s \<noteq> None"
proof -
  from assms have s: "s = name @ drop (length name) s"
    and ne: "drop (length name) s \<noteq> []"
    and dg: "list_all is_digit (drop (length name) s)"
    by (auto simp: spec_header_exact_def) (metis append_take_drop_id)
  from ne obtain d post where dp: "drop (length name) s = d # post"
    by (cases "drop (length name) s") auto
  with dg have "is_digit d" by simp
  moreover from s dp have "s = [] @ name @ d # post" by simp
  ultimately show ?thesis
    unfolding search_header_None_iff by blast
qed


section \<open>Text that is written is read back\<close>
































section \<open>Objects in a store: the operations leave their operands alone\<close>

lemma modify_nth: "modify r f h ! q = (if q = r \<and> r < length h then f (h ! r) else h ! q)"
  by (cases "r < length h") (auto simp: modify_def list_update_beyond nth_list_update)

lemma length_modify: "length (modify r f h) = length h"
  by (simp add: modify_def)

lemma modify_modify: "modify r g (modify r f h) = modify r (g \<circ> f) h"
  by (cases "r < length h") (simp_all add: modify_def list_update_beyond)

lemma modify_id: "modify r id h = h"
  by (simp add: modify_def)

lemma modify_append_last: "modify (length h) f (h @ [m]) = h @ [f m]"
  by (simp add: modify_def)

text \<open>
  A loop over the entries of \<open>p\<close> whose body changes only the object at \<open>r\<close>, another
  object, ends and is the fold of the body over the entries of \<open>p\<close>.
\<close>

lemma for_entries_fold:
  assumes "r \<noteq> p"
    and body: "\<And>e h'. \<forall>q. q \<noteq> r \<longrightarrow> h' ! q = h0 ! q \<Longrightarrow> body e h' = modify r (g e) h'"
  shows "\<forall>q. q \<noteq> r \<longrightarrow> h ! q = h0 ! q \<Longrightarrow>
         for_entries p body i h = Some (modify r (fold g (drop i (elements (h0 ! p)))) h)"
proof (induction "length (elements (h0 ! p)) - i" arbitrary: i h)
  case 0
  then have hp: "h ! p = h0 ! p" using assms(1) by simp
  with 0 have "\<not> i < length (elements (h ! p))" by simp
  then show ?case
    using 0 by (subst for_entries.simps) (simp add: modify_id)
next
  case (Suc n)
  let ?es = "elements (h0 ! p)"
  have hp: "h ! p = h0 ! p" using assms(1) Suc.prems by simp
  from Suc.hyps(2) have i: "i < length ?es" by simp
  let ?h1 = "modify r (g (?es ! i)) h"
  have h1: "\<forall>q. q \<noteq> r \<longrightarrow> ?h1 ! q = h0 ! q" using Suc.prems by (simp add: modify_nth)
  have n: "n = length ?es - (i + 1)" using Suc.hyps(2) by simp
  have "for_entries p body i h = for_entries p body (i + 1) ?h1"
    using i hp body [OF Suc.prems] by (subst for_entries.simps) simp
  also have "\<dots> = Some (modify r (fold g (drop (i + 1) ?es)) ?h1)"
    by (rule Suc.hyps(1) [OF n h1])
  also have "modify r (fold g (drop (i + 1) ?es)) ?h1
      = modify r (fold g (drop i ?es)) h"
    using i by (simp add: modify_modify Cons_nth_drop_Suc [symmetric] comp_def)
  finally show ?case .
qed

lemma multiply_inner_at_fold:
  assumes "other \<noteq> result"
  shows "multiply_inner_at other result row col v k h
       = modify result (fold (multiply_step (h ! other) row col v) [k..<cols (h ! other)]) h"
proof (induction "cols (h ! other) - k" arbitrary: k h)
  case 0
  then show ?case
    by (subst multiply_inner_at.simps) (simp add: modify_id)
next
  case (Suc n)
  from Suc.hyps(2) have k: "k < cols (h ! other)" by simp
  let ?h1 = "modify result (multiply_step (h ! other) row col v k) h"
  have oth: "?h1 ! other = h ! other" using assms by (simp add: modify_nth)
  have n: "n = cols (?h1 ! other) - (k + 1)" using Suc.hyps(2) oth by simp
  have "multiply_inner_at other result row col v k h
      = multiply_inner_at other result row col v (k + 1) ?h1"
    using k by (subst multiply_inner_at.simps) simp
  also have "\<dots> = modify result
      (fold (multiply_step (h ! other) row col v) [k + 1..<cols (h ! other)]) ?h1"
    using Suc.hyps(1) [OF n] oth by simp
  also have "\<dots> = modify result
      (fold (multiply_step (h ! other) row col v) [k..<cols (h ! other)]) h"
    using k by (simp add: modify_modify upt_conv_Cons comp_def)
  finally show ?case .
qed

lemma multiply_entry_at_modify:
  assumes "other \<noteq> result"
  shows "multiply_entry_at other result e h = modify result (multiply_entry (h ! other) e) h"
  by (cases e; cases "key_coords (fst e)")
     (simp add: multiply_entry_at_def multiply_entry_def multiply_inner_at_fold [OF assms]
        modify_def)


text \<open>The operations on objects return what the operations on values return.\<close>

lemma add_at_add:
  assumes "this < length h" and "other < length h"
  shows "add_at this other h =
           Some (case add (h ! this) (h ! other) of
                   Inl e \<Rightarrow> (Inl e, h)
                 | Inr R \<Rightarrow> (Inr (length h), h @ [R]))"
proof (cases "rows (h ! this) \<noteq> rows (h ! other) \<or> cols (h ! this) \<noteq> cols (h ! other)")
  case True
  then show ?thesis by (auto simp: add_at_def add_def)
next
  case False
  let ?r = "length h"
  let ?N = "new_SparseMatrix (rows (h ! this)) (cols (h ! this))"
  let ?h1 = "h @ [?N]"
  have ne: "?r \<noteq> this" "?r \<noteq> other" using assms by simp_all
  have h1: "?h1 ! this = h ! this" "?h1 ! other = h ! other"
    using assms by (simp_all add: nth_append)
  let ?A = "fold copy_entry (elements (h ! this)) ?N"
  have l1: "for_entries this (\<lambda>entry. modify ?r (copy_entry entry)) 0 ?h1 = Some (h @ [?A])"
    using for_entries_fold [of ?r this ?h1 "\<lambda>entry. modify ?r (copy_entry entry)" copy_entry ?h1 0]
      ne(1) h1(1)
    by (simp add: modify_append_last)
  let ?h2 = "h @ [?A]"
  have h2: "?h2 ! other = h ! other" using assms by (simp add: nth_append)
  let ?B = "fold add_entry (elements (h ! other)) ?A"
  have l2: "for_entries other (\<lambda>entry. modify ?r (add_entry entry)) 0 ?h2 = Some (h @ [?B])"
    using for_entries_fold [of ?r other ?h2 "\<lambda>entry. modify ?r (add_entry entry)" add_entry ?h2 0]
      ne(2) h2
    by (simp add: modify_append_last)
  from False l1 l2 show ?thesis
    by (simp add: add_at_def add_def allocate_def Let_def)
qed

lemma subtract_at_subtract:
  assumes "this < length h" and "other < length h"
  shows "subtract_at this other h =
           Some (case subtract (h ! this) (h ! other) of
                   Inl e \<Rightarrow> (Inl e, h)
                 | Inr R \<Rightarrow> (Inr (length h), h @ [R]))"
proof (cases "rows (h ! this) \<noteq> rows (h ! other) \<or> cols (h ! this) \<noteq> cols (h ! other)")
  case True
  then show ?thesis by (auto simp: subtract_at_def subtract_def)
next
  case False
  let ?r = "length h"
  let ?N = "new_SparseMatrix (rows (h ! this)) (cols (h ! this))"
  let ?h1 = "h @ [?N]"
  have ne: "?r \<noteq> this" "?r \<noteq> other" using assms by simp_all
  have h1: "?h1 ! this = h ! this" "?h1 ! other = h ! other"
    using assms by (simp_all add: nth_append)
  let ?A = "fold copy_entry (elements (h ! this)) ?N"
  have l1: "for_entries this (\<lambda>entry. modify ?r (copy_entry entry)) 0 ?h1 = Some (h @ [?A])"
    using for_entries_fold [of ?r this ?h1 "\<lambda>entry. modify ?r (copy_entry entry)" copy_entry ?h1 0]
      ne(1) h1(1)
    by (simp add: modify_append_last)
  let ?h2 = "h @ [?A]"
  have h2: "?h2 ! other = h ! other" using assms by (simp add: nth_append)
  let ?B = "fold subtract_entry (elements (h ! other)) ?A"
  have l2: "for_entries other (\<lambda>entry. modify ?r (subtract_entry entry)) 0 ?h2 = Some (h @ [?B])"
    using for_entries_fold [of ?r other ?h2 "\<lambda>entry. modify ?r (subtract_entry entry)"
        subtract_entry ?h2 0] ne(2) h2
    by (simp add: modify_append_last)
  from False l1 l2 show ?thesis
    by (simp add: subtract_at_def subtract_def allocate_def Let_def)
qed

lemma multiply_at_multiply:
  assumes "this < length h" and "other < length h"
  shows "multiply_at this other h =
           Some (case multiply (h ! this) (h ! other) of
                   Inl e \<Rightarrow> (Inl e, h)
                 | Inr R \<Rightarrow> (Inr (length h), h @ [R]))"
proof (cases "cols (h ! this) \<noteq> rows (h ! other)")
  case True
  then show ?thesis by (auto simp: multiply_at_def multiply_def)
next
  case False
  let ?r = "length h"
  let ?N = "new_SparseMatrix (rows (h ! this)) (cols (h ! other))"
  let ?h1 = "h @ [?N]"
  have ne: "?r \<noteq> this" "other \<noteq> ?r" using assms by simp_all
  have h1: "?h1 ! this = h ! this" "?h1 ! other = h ! other"
    using assms by (simp_all add: nth_append)
  let ?A = "fold (multiply_entry (h ! other)) (elements (h ! this)) ?N"
  have body: "multiply_entry_at other ?r e h' = modify ?r (multiply_entry (h ! other) e) h'"
    if "\<forall>q. q \<noteq> ?r \<longrightarrow> h' ! q = ?h1 ! q" for e h'
  proof -
    from that ne(2) have "h' ! other = ?h1 ! other" by blast
    then show ?thesis
      using multiply_entry_at_modify [OF ne(2), of e h'] h1(2) by simp
  qed
  have l1: "for_entries this (multiply_entry_at other ?r) 0 ?h1 = Some (h @ [?A])"
    using for_entries_fold [of ?r this ?h1 "multiply_entry_at other ?r"
        "multiply_entry (h ! other)" ?h1 0, OF ne(1) body] h1(1)
    by (simp add: modify_append_last)
  from False l1 show ?thesis
    by (simp add: multiply_at_def multiply_def allocate_def Let_def)
qed

section \<open>The properties of the specification\<close>







text \<open>
  C4, as the program has it. For a source of at least two lines, \<open>fromFile\<close> fails with
  the dimension-format error exactly when the trimmed line 0 holds no \<open>rows=\<close> followed
  by a digit or the trimmed line 1 holds no \<open>cols=\<close> followed by a digit, anywhere in the
  line; lines that are exactly \<open>rows=\d+\<close> and \<open>cols=\d+\<close> do not raise it.
\<close>

theorem header_search:
  assumes "fs p = Content content" and "2 \<le> length (split (CHR 0x0A) content)"
  shows "(fromFile fs p = Inl (invalid_dimensions p) \<longleftrightarrow>
            \<not> ((\<exists>pre d post. trim (split (CHR 0x0A) content ! 0) = pre @ ''rows='' @ d # post
                    \<and> is_digit d) \<and>
               (\<exists>pre d post. trim (split (CHR 0x0A) content ! 1) = pre @ ''cols='' @ d # post
                    \<and> is_digit d))) \<and>
         (spec_header_exact ''rows='' (trim (split (CHR 0x0A) content ! 0)) \<and>
          spec_header_exact ''cols='' (trim (split (CHR 0x0A) content ! 1))
            \<longrightarrow> fromFile fs p \<noteq> Inl (invalid_dimensions p))"
proof -
  let ?ls = "map trim (split (CHR 0x0A) content)"
  have "0 < length (split (CHR 0x0A) content)" and "1 < length (split (CHR 0x0A) content)"
    using assms(2) by arith+
  then have l0: "?ls ! 0 = trim (split (CHR 0x0A) content ! 0)"
    and l1: "?ls ! 1 = trim (split (CHR 0x0A) content ! 1)"
    by (simp_all only: nth_map)
  have long: "\<not> length ?ls < 2" using assms(2) by simp
  note eq = fromFile_Content [of fs p, OF assms(1) refl]
  have main: "fromFile fs p = Inl (invalid_dimensions p) \<longleftrightarrow>
      search (header_at ''rows='') (?ls ! 0) = None \<or> search (header_at ''cols='') (?ls ! 1) = None"
  proof (cases "search (header_at ''rows='') (?ls ! 0)")
    case None
    with eq long show ?thesis by simp
  next
    case rg: (Some rg)
    show ?thesis
    proof (cases "search (header_at ''cols='') (?ls ! 1)")
      case None
      with eq long rg show ?thesis by simp
    next
      case (Some cg)
      have "parse_elements p 2 (drop 2 ?ls)
          (new_SparseMatrix (nat (parseInt rg)) (nat (parseInt cg))) \<noteq> Inl (invalid_dimensions p)"
      proof
        assume "parse_elements p 2 (drop 2 ?ls)
          (new_SparseMatrix (nat (parseInt rg)) (nat (parseInt cg))) = Inl (invalid_dimensions p)"
        from parse_elements_result [OF this] obtain n l
          where "invalid_dimensions p = invalid_line n p l" by blast
        then show False using messages_differ(1) [of n p l] by simp
      qed
      with eq long rg Some show ?thesis by simp
    qed
  qed
  have first: "fromFile fs p = Inl (invalid_dimensions p) \<longleftrightarrow>
            \<not> ((\<exists>pre d post. trim (split (CHR 0x0A) content ! 0) = pre @ ''rows='' @ d # post
                    \<and> is_digit d) \<and>
               (\<exists>pre d post. trim (split (CHR 0x0A) content ! 1) = pre @ ''cols='' @ d # post
                    \<and> is_digit d))"
    unfolding main search_header_None_iff l0 l1 by blast
  have second: "fromFile fs p \<noteq> Inl (invalid_dimensions p)"
    if "spec_header_exact ''rows='' (trim (split (CHR 0x0A) content ! 0))"
      and "spec_header_exact ''cols='' (trim (split (CHR 0x0A) content ! 1))"
    using that [THEN spec_header_exact_search] unfolding main l0 l1 by simp
  from first second show ?thesis by blast
qed

theorem header_search_witness:
  "(no_files(''m.txt'' := Content (''xrows=2y'' @ [CHR 0x0A] @ ''cols=3''))) ''m.txt''
      = Content (''xrows=2y'' @ [CHR 0x0A] @ ''cols=3'') \<and>
   2 \<le> length (split (CHR 0x0A) (''xrows=2y'' @ [CHR 0x0A] @ ''cols=3'')) \<and>
   fromFile (no_files(''m.txt'' := Content (''xrows=2y'' @ [CHR 0x0A] @ ''cols=3''))) ''m.txt''
      \<noteq> Inl (invalid_dimensions ''m.txt'')"
proof -
  let ?c = "''xrows=2y'' @ [CHR 0x0A] @ ''cols=3''"
  let ?fs = "no_files(''m.txt'' := Content ?c)"
  have a: "?fs ''m.txt'' = Content ?c" by simp
  have sp: "split (CHR 0x0A) ?c = [''xrows=2y'', ''cols=3'']" by simp
  have b: "2 \<le> length (split (CHR 0x0A) ?c)" unfolding sp by simp
  have t0: "trim ''xrows=2y'' = ''x'' @ ''rows='' @ CHR ''2'' # ''y''"
    by (simp add: trim_def is_space_def)
  have t1: "trim ''cols=3'' = [] @ ''cols='' @ CHR ''3'' # []"
    by (simp add: trim_def is_space_def)
  have d: "is_digit CHR ''2''" "is_digit CHR ''3''" by (simp_all add: is_digit_def)
  have "fromFile ?fs ''m.txt'' \<noteq> Inl (invalid_dimensions ''m.txt'')"
    using header_search [of ?fs "''m.txt''" ?c, OF a b] unfolding sp using t0 t1 d
    by (metis nth_Cons_0 One_nat_def nth_Cons_Suc)
  with a b show ?thesis by blast
qed

text \<open>
  C4 as the specification words it does not hold: the source below has two lines, its
  line 0 is not exactly \<open>rows=\d+\<close>, and \<open>fromFile\<close> returns a matrix of 2 rows and 3
  columns.
\<close>

theorem header_exact_counterexample:
  "length (split (CHR 0x0A) (''xrows=2y'' @ [CHR 0x0A] @ ''cols=3'')) = 2 \<and>
   \<not> spec_header_exact ''rows='' (trim (split (CHR 0x0A) (''xrows=2y'' @ [CHR 0x0A] @ ''cols=3'') ! 0)) \<and>
   fromFile (no_files(''m.txt'' := Content (''xrows=2y'' @ [CHR 0x0A] @ ''cols=3''))) ''m.txt''
     = Inr \<lparr>rows = 2, cols = 3, elements = []\<rparr>"
  by code_simp







text \<open>
  C8. On a store that holds both operands, \<open>add\<close>, \<open>subtract\<close> and \<open>multiply\<close> return;
  every object that was in the store before the call, the two operands among them
  (also when they are one object), is the same afterwards: rows, cols and all entries.
  A successful call returns a reference to a new object, one that was not in the store
  before; a failing call leaves the store as it was.
\<close>

theorem operands_unchanged:
  assumes "this < length h" and "other < length h"
  shows "(\<exists>res h'. add_at this other h = Some (res, h') \<and>
            h' ! this = h ! this \<and> h' ! other = h ! other \<and>
            (\<forall>q<length h. h' ! q = h ! q) \<and>
            (\<forall>r. res = Inr r \<longrightarrow> r = length h \<and> length h' = length h + 1) \<and>
            (\<forall>e. res = Inl e \<longrightarrow> h' = h)) \<and>
         (\<exists>res h'. subtract_at this other h = Some (res, h') \<and>
            h' ! this = h ! this \<and> h' ! other = h ! other \<and>
            (\<forall>q<length h. h' ! q = h ! q) \<and>
            (\<forall>r. res = Inr r \<longrightarrow> r = length h \<and> length h' = length h + 1) \<and>
            (\<forall>e. res = Inl e \<longrightarrow> h' = h)) \<and>
         (\<exists>res h'. multiply_at this other h = Some (res, h') \<and>
            h' ! this = h ! this \<and> h' ! other = h ! other \<and>
            (\<forall>q<length h. h' ! q = h ! q) \<and>
            (\<forall>r. res = Inr r \<longrightarrow> r = length h \<and> length h' = length h + 1) \<and>
            (\<forall>e. res = Inl e \<longrightarrow> h' = h))"
proof -
  have frame: "\<exists>res h'. out = (res, h') \<and>
            h' ! this = h ! this \<and> h' ! other = h ! other \<and>
            (\<forall>q<length h. h' ! q = h ! q) \<and>
            (\<forall>r. res = Inr r \<longrightarrow> r = length h \<and> length h' = length h + 1) \<and>
            (\<forall>e. res = Inl e \<longrightarrow> h' = h)"
    if "out = (case x of Inl e \<Rightarrow> (Inl e, h) | Inr R \<Rightarrow> (Inr (length h), h @ [R]))"
    for out :: "(error + ref) \<times> store" and x :: "error + SparseMatrix"
    using that assms by (cases x) (simp_all add: nth_append)
  show ?thesis
    unfolding add_at_add [OF assms] subtract_at_subtract [OF assms]
      multiply_at_multiply [OF assms]
    using frame [OF refl] by simp
qed

theorem operands_unchanged_witness:
  "(0::nat) < length [setElement 0 0 1 (new_SparseMatrix 1 1), new_SparseMatrix 2 1] \<and>
   (1::nat) < length [setElement 0 0 1 (new_SparseMatrix 1 1), new_SparseMatrix 2 1] \<and>
   (\<exists>res h'. add_at 0 0 [setElement 0 0 1 (new_SparseMatrix 1 1), new_SparseMatrix 2 1]
                = Some (res, h') \<and>
        h' ! 0 = setElement 0 0 1 (new_SparseMatrix 1 1) \<and> h' ! 1 = new_SparseMatrix 2 1) \<and>
   (\<exists>res h'. subtract_at 0 1 [setElement 0 0 1 (new_SparseMatrix 1 1), new_SparseMatrix 2 1]
                = Some (res, h') \<and>
        h' ! 0 = setElement 0 0 1 (new_SparseMatrix 1 1) \<and> h' ! 1 = new_SparseMatrix 2 1) \<and>
   (\<exists>res h'. multiply_at 0 0 [setElement 0 0 1 (new_SparseMatrix 1 1), new_SparseMatrix 2 1]
                = Some (res, h') \<and>
        h' ! 0 = setElement 0 0 1 (new_SparseMatrix 1 1) \<and> h' ! 1 = new_SparseMatrix 2 1)"
proof -
  let ?h = "[setElement 0 0 1 (new_SparseMatrix 1 1), new_SparseMatrix 2 1]"
  have a: "(0::nat) < length ?h" and b: "(1::nat) < length ?h" by simp_all
  from operands_unchanged [OF a a]
  have "\<exists>res h'. add_at 0 0 ?h = Some (res, h') \<and> (\<forall>q<length ?h. h' ! q = ?h ! q)"
    and "\<exists>res h'. multiply_at 0 0 ?h = Some (res, h') \<and> (\<forall>q<length ?h. h' ! q = ?h ! q)"
    by blast+
  moreover from operands_unchanged [OF a b]
  have "\<exists>res h'. subtract_at 0 1 ?h = Some (res, h') \<and> (\<forall>q<length ?h. h' ! q = ?h ! q)"
    by blast
  ultimately show ?thesis
    by (simp add: numeral_2_eq_2 less_Suc_eq all_conj_distrib ex_disj_distrib) 
qed

text \<open>
  C9. \<open>fromFile\<close> fails with "File not found: " followed by the path exactly when
  reading the path fails with \<open>ENOENT\<close>. For one path, that error differs from the
  three format errors and from every exception of the file system that is passed on.
\<close>

theorem not_found_error:
  "(fromFile fs p = Inl (file_not_found p) \<longleftrightarrow> fs p = Fails ''ENOENT'') \<and>
   file_not_found p = Error (''File not found: '' @ p) \<and>
   file_not_found p \<noteq> too_few_lines p \<and>
   file_not_found p \<noteq> invalid_dimensions p \<and>
   file_not_found p \<noteq> invalid_line n p l \<and>
   file_not_found p \<noteq> SystemError code"
proof -
  have "fromFile fs p = Inl (file_not_found p) \<longleftrightarrow> fs p = Fails ''ENOENT''"
  proof (cases "fs p")
    case (Content content)
    have "fromFile fs p \<noteq> Inl (file_not_found p)"
    proof
      assume "fromFile fs p = Inl (file_not_found p)"
      from fromFile_Content_error [OF Content this]
      consider "file_not_found p = too_few_lines p"
        | "file_not_found p = invalid_dimensions p"
        | n' l' where "file_not_found p = invalid_line n' p l'"
        by blast
      then show False
      proof cases
        case 1
        then show False using too_few_lines_not_found [of p] by simp
      next
        case 2
        then show False using messages_differ(3) [of p p] by simp
      next
        case 3
        then show False using messages_differ(2) [of n' p l' p] by simp
      qed
    qed
    with Content show ?thesis by simp
  next
    case (Fails c)
    show ?thesis
    proof (cases "c = ''ENOENT''")
      case True
      with Fails show ?thesis by (simp add: fromFile_Fails [of fs p, OF Fails])
    next
      case False
      with Fails show ?thesis
        by (simp add: fromFile_Fails [of fs p, OF Fails] file_not_found_def)
    qed
  qed
  moreover have "file_not_found p \<noteq> SystemError code"
    and "file_not_found p = Error (''File not found: '' @ p)"
    by (simp_all add: file_not_found_def)
  moreover have "file_not_found p \<noteq> too_few_lines p"
    using too_few_lines_not_found [of p] by simp
  moreover have "file_not_found p \<noteq> invalid_dimensions p"
    using messages_differ(3) [of p p] by simp
  moreover have "file_not_found p \<noteq> invalid_line n p l"
    using messages_differ(2) [of n p l p] by simp
  ultimately show ?thesis by blast
qed

theorem not_found_error_witness:
  "no_files ''missing.txt'' = Fails ''ENOENT'' \<and>
   fromFile no_files ''missing.txt'' = Inl (Error ''File not found: missing.txt'')"
  using not_found_error [of no_files "''missing.txt''"]
  by (simp add: no_files_def)

text \<open>
  C10. Writing (r, c) makes \<open>getElement\<close> return the written value there and leaves
  \<open>getElement\<close> as it was at every other coordinate: the keys of two different
  coordinates are different strings.
\<close>

theorem setElement_frame:
  "getElement r c (setElement r c v m) = v \<and>
   ((r', c') \<noteq> (r, c) \<longrightarrow> getElement r' c' (setElement r c v m) = getElement r' c' m) \<and>
   ((r', c') \<noteq> (r, c) \<longrightarrow> key_of r' c' \<noteq> key_of r c)"
  by (simp add: getElement_setElement key_of_inject)

theorem setElement_frame_witness:
  "(11, 2) \<noteq> (1 :: nat, 12 :: nat) \<and>
   getElement 1 12 (setElement 1 12 7 (setElement 11 2 5 (new_SparseMatrix 2 2))) = 7 \<and>
   getElement 11 2 (setElement 1 12 7 (setElement 11 2 5 (new_SparseMatrix 2 2)))
     = getElement 11 2 (setElement 11 2 5 (new_SparseMatrix 2 2)) \<and>
   key_of 11 2 \<noteq> key_of 1 12"
  using setElement_frame [of 1 12 7 "setElement 11 2 5 (new_SparseMatrix 2 2)" 11 2]
  by simp

end
